theory Spec2Isabelle
  imports Main "HOL-Library.Sublist"
begin

section \<open>Python values shared by the five example scripts\<close>

subsection \<open>Strings\<close>

text \<open>
  A Python \<open>str\<close> is modelled by the \<open>string\<close> of its UTF-8 bytes. Concatenation and
  equality are the same on the bytes as on the code points, and so is the search for an
  ASCII word, since no byte of a multi-byte sequence is an ASCII byte.

  \<open>str.lower\<close> and \<open>str.upper\<close> are Python builtins. They are parameters (\<open>str_lower\<close>,
  \<open>str_upper\<close>) of every function below that calls them, so what is proved of such a
  function holds whatever the two builtins do. On a string of ASCII characters they are
  the ASCII case mappings, which are defined next.
\<close>

definition ascii_uppercase :: string where
  "ascii_uppercase = ''ABCDEFGHIJKLMNOPQRSTUVWXYZ''"

definition ascii_lowercase :: string where
  "ascii_lowercase = ''abcdefghijklmnopqrstuvwxyz''"

definition is_upper :: "char \<Rightarrow> bool" where
  "is_upper c = (c \<in> set ascii_uppercase)"

definition is_lower :: "char \<Rightarrow> bool" where
  "is_lower c = (c \<in> set ascii_lowercase)"

definition lower_char :: "char \<Rightarrow> char" where
  "lower_char c =
     (case map_of (zip ascii_uppercase ascii_lowercase) c of Some d \<Rightarrow> d | None \<Rightarrow> c)"

definition upper_char :: "char \<Rightarrow> char" where
  "upper_char c =
     (case map_of (zip ascii_lowercase ascii_uppercase) c of Some d \<Rightarrow> d | None \<Rightarrow> c)"

definition swapcase_char :: "char \<Rightarrow> char" where
  "swapcase_char c =
     (if is_upper c then lower_char c else if is_lower c then upper_char c else c)"

text \<open>\<open>isascii s\<close> is \<open>s.isascii()\<close>: every character is below 128.\<close>

definition isascii :: "string \<Rightarrow> bool" where
  "isascii s = list_all (\<lambda>c. \<not> digit7 c) s"

definition ascii_lower :: "string \<Rightarrow> string" where
  "ascii_lower s = map lower_char s"

definition ascii_upper :: "string \<Rightarrow> string" where
  "ascii_upper s = map upper_char s"

text \<open>
  What is known of the builtin \<open>str.lower\<close> wherever it is a parameter: on an ASCII
  string it is the ASCII mapping.
\<close>

definition lowers_ascii :: "(string \<Rightarrow> string) \<Rightarrow> bool" where
  "lowers_ascii str_lower = (\<forall>s. isascii s \<longrightarrow> str_lower s = ascii_lower s)"

text \<open>
  For concrete runs, \<open>py_lower\<close> and \<open>py_upper\<close> give the two builtins on the strings at
  which this file evaluates them: on an ASCII string, and on the string \<open>long_s_tory\<close>,
  the letter LATIN SMALL LETTER LONG S (U+017F, the bytes C5 BF) followed by \<open>tory\<close>.
  The long s is a lower-case letter, so \<open>str.lower\<close> keeps it; its upper-case form is the
  ASCII letter \<open>S\<close>. On any other string the two constants are left unspecified: nothing
  is evaluated or claimed there.
\<close>

definition long_s_tory :: string where
  "long_s_tory = CHR 0xC5 # CHR 0xBF # ''tory''"

definition py_lower :: "string \<Rightarrow> string" where
  "py_lower s =
     (if isascii s then ascii_lower s
      else if s = long_s_tory then long_s_tory
      else undefined)"

definition py_upper :: "string \<Rightarrow> string" where
  "py_upper s =
     (if isascii s then ascii_upper s
      else if s = long_s_tory then ''STORY''
      else undefined)"

text \<open>\<open>startswith s w\<close> is \<open>s.startswith(w)\<close>; \<open>contains w s\<close> is Python's \<open>w in s\<close>.\<close>

fun startswith :: "string \<Rightarrow> string \<Rightarrow> bool" where
  "startswith s [] = True"
| "startswith [] (c # w) = False"
| "startswith (d # s) (c # w) = (d = c \<and> startswith s w)"

fun contains :: "string \<Rightarrow> string \<Rightarrow> bool" where
  "contains w [] = (w = [])"
| "contains w (c # s) = (startswith (c # s) w \<or> contains w s)"

text \<open>
  Two characters are the same letter when they are equal or differ only in ASCII case;
  two strings are case variants of each other when they agree letter by letter in this
  sense.
\<close>

definition same_letter :: "char \<Rightarrow> char \<Rightarrow> bool" where
  "same_letter a b = (b = a \<or> b = swapcase_char a)"

definition case_variant :: "string \<Rightarrow> string \<Rightarrow> bool" where
  "case_variant q q' = list_all2 same_letter q q'"

subsection \<open>Errors\<close>

text \<open>
  Python exceptions raised by the scripts themselves, and the error taxonomy of the graph
  engine. An error travels as the \<open>Inl\<close> of a sum.
\<close>

datatype node_name = START | END | Name string

datatype error =
    NameError string
  | KeyError string
  | IndexError
  | SchemaError string
  | TypeError
  | RoutingError node_name "node_name list"
  | GraphIntegrityError
  | NodeExecutionError node_name error
  | CheckpointError

section \<open>05_multi_agent.py: the router\<close>

datatype AgentType = RESEARCHER | CODER | WRITER

fun agent_value :: "AgentType \<Rightarrow> string" where
  "agent_value RESEARCHER = ''researcher''"
| "agent_value CODER = ''coder''"
| "agent_value WRITER = ''writer''"

definition coder_words :: "string list" where
  "coder_words = [''code'', ''function'', ''api'', ''implement'', ''debug'']"

definition writer_words :: "string list" where
  "writer_words = [''write'', ''article'', ''blog'', ''content'', ''story'']"

text \<open>\<open>any_word_in ws query\<close> is \<open>any(word in query for word in ws)\<close>.\<close>

definition any_word_in :: "string list \<Rightarrow> string \<Rightarrow> bool" where
  "any_word_in ws query = list_ex (\<lambda>word. contains word query) ws"

text \<open>
  \<open>route_to_agent\<close> reads \<open>state["query"]\<close> (a \<open>KeyError\<close> when the key is missing),
  lowers it with \<open>str.lower\<close> and tests the coder keywords before the writer keywords.
\<close>

definition route_to_agent ::
    "(string \<Rightarrow> string) \<Rightarrow> (string \<rightharpoonup> string) \<Rightarrow> error + string" where
  "route_to_agent str_lower state =
     (case state ''query'' of
        None \<Rightarrow> Inl (KeyError ''query'')
      | Some q \<Rightarrow>
          (let query = str_lower q in
           if any_word_in coder_words query then Inr (agent_value CODER)
           else if any_word_in writer_words query then Inr (agent_value WRITER)
           else Inr (agent_value RESEARCHER)))"

text \<open>The mapping handed to \<open>add_conditional_edges\<close> in \<open>build_graph\<close>, in source order.\<close>

definition routing_mapping :: "(string \<times> string) list" where
  "routing_mapping =
     [(agent_value RESEARCHER, agent_value RESEARCHER),
      (agent_value CODER, agent_value CODER),
      (agent_value WRITER, agent_value WRITER)]"

section \<open>02_react_agent.py: the calculator tool\<close>










section \<open>The graph engine\<close>

text \<open>
  The five scripts configure and call one engine (\<open>StateGraph\<close>, \<open>compile\<close>, \<open>invoke\<close>,
  \<open>get_state\<close>), whose code is not among the repository's files. Its definitions below
  follow the specification, sections 3 to 6; each says which sentence it models.
\<close>

subsection \<open>State, reducers and merge\<close>

type_synonym 'v state = "string \<rightharpoonup> 'v"

type_synonym 'v update = "(string \<times> 'v) list"

type_synonym 'v reducer = "'v \<Rightarrow> 'v \<Rightarrow> error + 'v"

type_synonym 'v state_schema = "(string \<times> 'v reducer) list"

text \<open>
  Modelled from the spec: the \<open>replace\<close> reducer of section 3 (the new value overwrites
  the old one; the default for a plain field of a \<open>TypedDict\<close>).
\<close>

definition replace :: "'v reducer" where
  "replace old new = Inr new"

text \<open>
  Modelled from the spec: the \<open>append\<close> reducer of section 3 (the new sequence elements
  are concatenated onto the existing sequence). The scripts declare it as
  \<open>Annotated[List[str], add]\<close> with \<open>operator.add\<close>, which on two lists is concatenation;
  both sides are lists by type, so the \<open>TypeError\<close> of section 4.1 has no case here.
\<close>

definition operator_add :: "'a list reducer" where
  "operator_add old new = Inr (old @ new)"

text \<open>A dict literal as a state: later entries win over earlier ones.\<close>

definition dict :: "'v update \<Rightarrow> 'v state" where
  "dict kvs = foldl (\<lambda>m kv. m(fst kv \<mapsto> snd kv)) Map.empty kvs"

text \<open>
  Modelled from the spec: \<open>merge(currentState, partialUpdate)\<close> of section 4.1 for one
  key: the key's declared reducer is applied to the current value and the new one; a key
  the schema does not declare is a \<open>SchemaError\<close>. A key with no current value takes the
  new value.
\<close>

definition merge_key :: "'v state_schema \<Rightarrow> 'v state \<Rightarrow> string \<times> 'v \<Rightarrow> error + 'v state" where
  "merge_key sch st kv =
     (case map_of sch (fst kv) of
        None \<Rightarrow> Inl (SchemaError (fst kv))
      | Some r \<Rightarrow>
          (case st (fst kv) of
             None \<Rightarrow> Inr (st(fst kv \<mapsto> snd kv))
           | Some old \<Rightarrow>
               (case r old (snd kv) of
                  Inl e \<Rightarrow> Inl e
                | Inr v \<Rightarrow> Inr (st(fst kv \<mapsto> v)))))"

text \<open>
  Modelled from the spec: \<open>merge\<close> of section 4.1 over all keys of the partial update,
  in the update's order; keys absent from the update are not touched.
\<close>

fun merge :: "'v state_schema \<Rightarrow> 'v state \<Rightarrow> 'v update \<Rightarrow> error + 'v state" where
  "merge sch st [] = Inr st"
| "merge sch st (kv # rest) =
     (case merge_key sch st kv of Inl e \<Rightarrow> Inl e | Inr st' \<Rightarrow> merge sch st' rest)"

text \<open>
  Modelled from the spec: step 2b of section 4.3, the partial updates of one step are
  merged one after the other, in the order the nodes were scheduled.
\<close>

fun merge_all :: "'v state_schema \<Rightarrow> 'v state \<Rightarrow> 'v update list \<Rightarrow> error + 'v state" where
  "merge_all sch st [] = Inr st"
| "merge_all sch st (u # us) =
     (case merge sch st u of Inl e \<Rightarrow> Inl e | Inr st' \<Rightarrow> merge_all sch st' us)"

subsection \<open>Nodes, edges and the build-time surface\<close>

type_synonym 'v step_fn = "'v state \<Rightarrow> error + 'v update"

type_synonym 'v branch_fn = "'v state \<Rightarrow> error + node_name"

text \<open>
  Modelled from the spec: an edge of section 3, unconditional (\<open>fromNode \<rightarrow> toNode\<close>) or
  conditional (a branch function and a mapping from branch key to target node).
\<close>

datatype 'v edge =
    Edge node_name node_name
  | ConditionalEdges node_name "'v branch_fn" "(node_name \<times> node_name) list"

text \<open>
  Modelled from the spec: the graph under construction, a state schema, the named nodes
  and the edge table (section 2).
\<close>

record 'v state_graph =
  schema :: "'v state_schema"
  nodes :: "(string \<times> 'v step_fn) list"
  edges :: "'v edge list"

text \<open>Modelled from the spec: the build-time surface of section 6, a new graph.\<close>

definition StateGraph :: "'v state_schema \<Rightarrow> 'v state_graph" where
  "StateGraph sch = \<lparr>schema = sch, nodes = [], edges = []\<rparr>"

text \<open>Modelled from the spec: \<open>addNode(name, stepFn)\<close> of section 6.\<close>

definition add_node :: "string \<Rightarrow> 'v step_fn \<Rightarrow> 'v state_graph \<Rightarrow> 'v state_graph" where
  "add_node name fn g = g\<lparr>nodes := nodes g @ [(name, fn)]\<rparr>"

text \<open>Modelled from the spec: \<open>addEdge(from, to)\<close> of section 6.\<close>

definition add_edge :: "node_name \<Rightarrow> node_name \<Rightarrow> 'v state_graph \<Rightarrow> 'v state_graph" where
  "add_edge a b g = g\<lparr>edges := edges g @ [Edge a b]\<rparr>"

text \<open>Modelled from the spec: \<open>addConditionalEdges(from, branchFn, mapping)\<close> of section 6.\<close>

definition add_conditional_edges ::
    "node_name \<Rightarrow> 'v branch_fn \<Rightarrow> (node_name \<times> node_name) list \<Rightarrow> 'v state_graph
       \<Rightarrow> 'v state_graph" where
  "add_conditional_edges a f m g = g\<lparr>edges := edges g @ [ConditionalEdges a f m]\<rparr>"

subsection \<open>The integrity check of compile\<close>

text \<open>
  Modelled from the spec: the static view of the edge table used by the reachability
  analysis of section 4.3: an unconditional edge as it is, a conditional edge to every
  target of its mapping.
\<close>

fun edge_pairs :: "'v edge \<Rightarrow> (node_name \<times> node_name) list" where
  "edge_pairs (Edge a b) = [(a, b)]"
| "edge_pairs (ConditionalEdges a f m) = map (\<lambda>kt. (a, snd kt)) m"

definition static_edges :: "'v state_graph \<Rightarrow> (node_name \<times> node_name) list" where
  "static_edges g = concat (map edge_pairs (edges g))"

definition successors :: "(node_name \<times> node_name) list \<Rightarrow> node_name \<Rightarrow> node_name list" where
  "successors es n = map snd (filter (\<lambda>e. fst e = n) es)"

text \<open>
  Modelled from the spec: the static reachability analysis of section 4.3. \<open>reach es seen\<close>
  adds the successors of the nodes seen so far until none is new.
\<close>

function reach :: "(node_name \<times> node_name) list \<Rightarrow> node_name list \<Rightarrow> node_name list" where
  "reach es seen =
     (let new = filter (\<lambda>m. m \<notin> set seen) (remdups (concat (map (successors es) seen)))
      in if new = [] then seen else reach es (seen @ new))"
  by pat_completeness auto
termination
proof (relation "measure (\<lambda>(es, seen). card (snd ` set es - set seen))")
  show "wf (measure (\<lambda>(es, seen). card (snd ` set es - set seen)))"
    by simp
next
  fix es :: "(node_name \<times> node_name) list" and seen new :: "node_name list"
  assume new: "new = filter (\<lambda>m. m \<notin> set seen) (remdups (concat (map (successors es) seen)))"
    and ne: "new \<noteq> []"
  from ne obtain m where m: "m \<in> set new"
    by (cases new) auto
  with new have "m \<notin> set seen" and "m \<in> snd ` set es"
    by (auto simp: successors_def)
  with m have "snd ` set es - set (seen @ new) \<subset> snd ` set es - set seen"
    by auto
  then have "card (snd ` set es - set (seen @ new)) < card (snd ` set es - set seen)"
    by (intro psubset_card_mono) auto
  then show "((es, seen @ new), (es, seen)) \<in> measure (\<lambda>(es, seen). card (snd ` set es - set seen))"
    by simp
qed

declare reach.simps [simp del]

text \<open>
  Modelled from the spec: the compile-time integrity check of sections 4.3, 7 and 8:
  every node reachable from \<open>START\<close> has a path to \<open>END\<close>, and no declared node is
  unreachable.
\<close>

definition integrity_ok :: "'v state_graph \<Rightarrow> bool" where
  "integrity_ok g =
     (let es = static_edges g; from_start = reach es [START]
      in list_all (\<lambda>n. END \<in> set (reach es [n])) from_start
         \<and> list_all (\<lambda>nf. Name (fst nf) \<in> set from_start) (nodes g))"

text \<open>
  Modelled from the spec: the runnable graph that \<open>compile\<close> returns, with the options of
  section 6: whether a checkpointer was given, and the interrupt set.
\<close>

record 'v compiled_graph =
  graph :: "'v state_graph"
  checkpointer :: bool
  interrupt_before :: "node_name list"

text \<open>
  Modelled from the spec: \<open>compile(options)\<close> of section 6, which validates the graph
  eagerly and fails with \<open>GraphIntegrityError\<close> (sections 4.3 and 7).
\<close>

definition compile ::
    "'v state_graph \<Rightarrow> bool \<Rightarrow> node_name list \<Rightarrow> error + 'v compiled_graph" where
  "compile g cp ib =
     (if integrity_ok g
      then Inr \<lparr>graph = g, checkpointer = cp, interrupt_before = ib\<rparr>
      else Inl GraphIntegrityError)"

subsection \<open>Routing\<close>

fun edge_source :: "'v edge \<Rightarrow> node_name" where
  "edge_source (Edge a b) = a"
| "edge_source (ConditionalEdges a f m) = a"

text \<open>
  Modelled from the spec: \<open>resolveNext\<close> of section 4.2 for one edge: the static target,
  or the branch function called once and its key looked up in the mapping, with
  \<open>RoutingError\<close> (carrying the valid keys) when the key is absent.
\<close>

fun resolve_edge :: "'v state \<Rightarrow> 'v edge \<Rightarrow> error + node_name list" where
  "resolve_edge st (Edge a b) = Inr [b]"
| "resolve_edge st (ConditionalEdges a f m) =
     (case f st of
        Inl e \<Rightarrow> Inl e
      | Inr key \<Rightarrow>
          (case map_of m key of
             None \<Rightarrow> Inl (RoutingError key (map fst m))
           | Some target \<Rightarrow> Inr [target]))"

fun resolve_edges :: "'v state \<Rightarrow> 'v edge list \<Rightarrow> error + node_name list" where
  "resolve_edges st [] = Inr []"
| "resolve_edges st (e # es) =
     (case resolve_edge st e of
        Inl x \<Rightarrow> Inl x
      | Inr ts \<Rightarrow>
          (case resolve_edges st es of Inl x \<Rightarrow> Inl x | Inr us \<Rightarrow> Inr (ts @ us)))"

text \<open>
  Modelled from the spec: \<open>resolveNext(fromNode, state)\<close> of section 4.2 over the edge
  table: zero, one or many next nodes.
\<close>

definition resolve_next :: "'v state_graph \<Rightarrow> node_name \<Rightarrow> 'v state \<Rightarrow> error + node_name list" where
  "resolve_next g a st = resolve_edges st (filter (\<lambda>e. edge_source e = a) (edges g))"

text \<open>
  Modelled from the spec: step 2d of section 4.3, the next node set of all nodes that
  ran in the step.
\<close>

fun resolve_all :: "'v state_graph \<Rightarrow> node_name list \<Rightarrow> 'v state \<Rightarrow> error + node_name list" where
  "resolve_all g [] st = Inr []"
| "resolve_all g (n # ns) st =
     (case resolve_next g n st of
        Inl x \<Rightarrow> Inl x
      | Inr ts \<Rightarrow>
          (case resolve_all g ns st of Inl x \<Rightarrow> Inl x | Inr us \<Rightarrow> Inr (ts @ us)))"

subsection \<open>Checkpoints\<close>

text \<open>
  Modelled from the spec: a checkpoint of section 3, the state, the pending node if any,
  and the interrupted flag; the store is keyed by thread id.
\<close>

record 'v checkpoint =
  cp_state :: "'v state"
  pending_node :: "node_name option"
  interrupted :: bool

type_synonym 'v store = "string \<rightharpoonup> 'v checkpoint"

text \<open>Modelled from the spec: \<open>load(threadId)\<close> of section 4.4.\<close>

definition load :: "string \<Rightarrow> 'v store \<Rightarrow> 'v checkpoint option" where
  "load thread_id store = store thread_id"

text \<open>Modelled from the spec: \<open>save(threadId, checkpoint)\<close> of section 4.4, an overwrite.\<close>

definition save :: "string \<Rightarrow> 'v checkpoint \<Rightarrow> 'v store \<Rightarrow> 'v store" where
  "save thread_id cp store = store(thread_id \<mapsto> cp)"

text \<open>
  Modelled from the spec: the runner reaches the store only through the checkpointer
  (section 3). A graph compiled without a checkpointer, or called without a thread id,
  loads nothing and saves nothing.
\<close>

definition load_checkpoint ::
    "'v compiled_graph \<Rightarrow> string option \<Rightarrow> 'v store \<Rightarrow> 'v checkpoint option" where
  "load_checkpoint app config store =
     (case config of
        None \<Rightarrow> None
      | Some thread_id \<Rightarrow> if checkpointer app then load thread_id store else None)"

definition save_checkpoint ::
    "'v compiled_graph \<Rightarrow> string option \<Rightarrow> 'v checkpoint \<Rightarrow> 'v store \<Rightarrow> 'v store" where
  "save_checkpoint app config cp store =
     (case config of
        None \<Rightarrow> store
      | Some thread_id \<Rightarrow> if checkpointer app then save thread_id cp store else store)"

subsection \<open>The runner\<close>

text \<open>
  Modelled from the spec: one node's step function is called with the current state
  (section 6); its failure is wrapped as \<open>NodeExecutionError\<close> (section 7). \<open>START\<close> and
  \<open>END\<close> are virtual and run nothing (section 3).
\<close>

fun run_node :: "'v state_graph \<Rightarrow> 'v state \<Rightarrow> node_name \<Rightarrow> error + 'v update" where
  "run_node g st (Name n) =
     (case map_of (nodes g) n of
        None \<Rightarrow> Inl (NodeExecutionError (Name n) (KeyError n))
      | Some fn \<Rightarrow>
          (case fn st of
             Inl e \<Rightarrow> Inl (NodeExecutionError (Name n) e)
           | Inr u \<Rightarrow> Inr u))"
| "run_node g st START = Inr []"
| "run_node g st END = Inr []"

text \<open>
  Modelled from the spec: step 2b of section 4.3, every scheduled node is called with the
  same current state and the partial updates are collected in scheduling order.
\<close>

fun collect_updates ::
    "'v state_graph \<Rightarrow> 'v state \<Rightarrow> node_name list \<Rightarrow> error + 'v update list" where
  "collect_updates g st [] = Inr []"
| "collect_updates g st (n # ns) =
     (case run_node g st n of
        Inl e \<Rightarrow> Inl e
      | Inr u \<Rightarrow>
          (case collect_updates g st ns of Inl e \<Rightarrow> Inl e | Inr us \<Rightarrow> Inr (u # us)))"

text \<open>
  Modelled from the spec: what \<open>invoke\<close> hands back (sections 4.3 and 7): the final state,
  the paused state, or an error with the state of the last good checkpoint. The result
  also records the nodes that were executed, in order, and the store after the call.
\<close>

datatype 'v outcome = Completed "'v state" | Paused "'v state" | Failed error "'v state"

record 'v run_result =
  outcome :: "'v outcome"
  executed :: "node_name list"
  store_after :: "'v store"

text \<open>
  Modelled from the spec: the loop of section 4.3, step 2. \<open>resolved\<close> is the node set
  resolved last: when it is exactly \<open>END\<close> the run is completed (2d). Otherwise the nodes
  other than \<open>END\<close> are scheduled: a scheduled node of the interrupt set pauses the run
  before anything is executed, unless this step resumes past that boundary (2a); else
  the nodes run and their updates are merged (2b), the checkpoint is saved (2c) and the
  next node set is resolved from the new state (2d). A failure ends the run with the
  state before the failing step (3). The loop may go on for ever, so it takes fuel:
  \<open>None\<close> says the fuel ran out before the run ended.
\<close>

fun run ::
    "nat \<Rightarrow> 'v compiled_graph \<Rightarrow> string option \<Rightarrow> bool \<Rightarrow> node_name list \<Rightarrow> 'v state
       \<Rightarrow> node_name list \<Rightarrow> 'v store \<Rightarrow> 'v run_result option" where
  "run 0 app config resuming resolved st trace store = None"
| "run (Suc fuel) app config resuming resolved st trace store =
     (if resolved \<noteq> [] \<and> list_all (\<lambda>n. n = END) resolved
      then Some \<lparr>outcome = Completed st, executed = trace, store_after = store\<rparr>
      else
        (let scheduled = filter (\<lambda>n. n \<noteq> END) resolved in
         case (if resuming then None
               else find (\<lambda>n. n \<in> set (interrupt_before app)) scheduled) of
           Some n \<Rightarrow>
             Some \<lparr>outcome = Paused st, executed = trace,
                   store_after = save_checkpoint app config
                     \<lparr>cp_state = st, pending_node = Some n, interrupted = True\<rparr> store\<rparr>
         | None \<Rightarrow>
             (case collect_updates (graph app) st scheduled of
                Inl e \<Rightarrow> Some \<lparr>outcome = Failed e st, executed = trace, store_after = store\<rparr>
              | Inr us \<Rightarrow>
                  (case merge_all (schema (graph app)) st us of
                     Inl e \<Rightarrow>
                       Some \<lparr>outcome = Failed e st, executed = trace, store_after = store\<rparr>
                   | Inr st' \<Rightarrow>
                       (let store' = save_checkpoint app config
                              \<lparr>cp_state = st', pending_node = None, interrupted = False\<rparr> store;
                            trace' = trace @ scheduled
                        in case resolve_all (graph app) scheduled st' of
                             Inl e \<Rightarrow>
                               Some \<lparr>outcome = Failed e st', executed = trace',
                                     store_after = store'\<rparr>
                           | Inr nxt \<Rightarrow>
                               run fuel app config False nxt st' trace' store')))))"

text \<open>
  Modelled from the spec: \<open>invoke(input, config)\<close>, step 1 of section 4.3. With no
  checkpoint the state is the input (which is required) and the run starts at the
  successors of \<open>START\<close>. With a checkpoint and no input the run resumes at the pending
  node, past its interrupt boundary if the checkpoint was interrupted; a thread with
  nothing pending has nothing to run. With a checkpoint and an input, the input is
  merged into the loaded state first, and the run goes on at the pending node if there is
  one and at the successors of \<open>START\<close> otherwise.
\<close>

definition invoke ::
    "nat \<Rightarrow> 'v compiled_graph \<Rightarrow> 'v update option \<Rightarrow> string option \<Rightarrow> 'v store
       \<Rightarrow> 'v run_result option" where
  "invoke fuel app input config store =
     (case load_checkpoint app config store of
        None \<Rightarrow>
          (case input of
             None \<Rightarrow>
               Some \<lparr>outcome = Failed (SchemaError ''input'') Map.empty, executed = [],
                     store_after = store\<rparr>
           | Some inp \<Rightarrow>
               (case resolve_next (graph app) START (dict inp) of
                  Inl e \<Rightarrow>
                    Some \<lparr>outcome = Failed e (dict inp), executed = [], store_after = store\<rparr>
                | Inr ns \<Rightarrow> run fuel app config False ns (dict inp) [] store))
      | Some cp \<Rightarrow>
          (case input of
             None \<Rightarrow>
               (case pending_node cp of
                  None \<Rightarrow>
                    Some \<lparr>outcome = Completed (cp_state cp), executed = [], store_after = store\<rparr>
                | Some n \<Rightarrow> run fuel app config (interrupted cp) [n] (cp_state cp) [] store)
           | Some inp \<Rightarrow>
               (case merge (schema (graph app)) (cp_state cp) inp of
                  Inl e \<Rightarrow>
                    Some \<lparr>outcome = Failed e (cp_state cp), executed = [], store_after = store\<rparr>
                | Inr st \<Rightarrow>
                    (case pending_node cp of
                       Some n \<Rightarrow> run fuel app config False [n] st [] store
                     | None \<Rightarrow>
                         (case resolve_next (graph app) START st of
                            Inl e \<Rightarrow>
                              Some \<lparr>outcome = Failed e (cp_state cp), executed = [],
                                    store_after = store\<rparr>
                          | Inr ns \<Rightarrow> run fuel app config False ns st [] store)))))"

text \<open>
  Modelled from the spec: \<open>getState(config)\<close> of section 6, the stored state and the
  nodes to run next. It reads the store through the checkpointer and hands the store
  back as it found it.
\<close>

record 'v state_snapshot =
  snapshot_values :: "'v state"
  snapshot_next :: "node_name list"

definition get_state ::
    "'v compiled_graph \<Rightarrow> string option \<Rightarrow> 'v store \<Rightarrow> 'v state_snapshot \<times> 'v store" where
  "get_state app config store =
     (case load_checkpoint app config store of
        None \<Rightarrow> (\<lparr>snapshot_values = Map.empty, snapshot_next = []\<rparr>, store)
      | Some cp \<Rightarrow>
          (\<lparr>snapshot_values = cp_state cp,
            snapshot_next = (case pending_node cp of None \<Rightarrow> [] | Some n \<Rightarrow> [n])\<rparr>,
           store))"

section \<open>The names a script can use\<close>

text \<open>
  Python looks a global name up when the line that uses it runs; a name that no import
  or definition of the module binds raises \<open>NameError\<close>. Each script's module-level
  names are listed from its imports and its definitions. \<open>global_END\<close> is the
  evaluation of the name \<open>END\<close> in a module with these names.
\<close>

definition global_END :: "string list \<Rightarrow> error + node_name" where
  "global_END names = (if ''END'' \<in> set names then Inr END else Inl (NameError ''END''))"

section \<open>01_sequential_chain.py\<close>

text \<open>\<open>from langgraph.graph import START, END, StateGraph\<close>, and the script's own names.\<close>

definition module_names_01 :: "string list" where
  "module_names_01 =
     [''START'', ''END'', ''StateGraph'', ''TypedDict'', ''State'', ''step1_process_input'',
      ''step2_generate_output'', ''build_graph'', ''main'']"

text \<open>
  \<open>State\<close> is a \<open>TypedDict\<close> of three \<open>str\<close> fields with no reducer annotation. The two
  step functions read one key (\<open>KeyError\<close> when it is missing) and return a one-key
  partial update; their \<open>print\<close> calls are not modelled. \<open>str_upper\<close> is the builtin
  \<open>str.upper\<close> that step 1 calls.
\<close>

definition State_01 :: "string state_schema" where
  "State_01 = [(''input'', replace), (''processed'', replace), (''output'', replace)]"

definition step1_process_input :: "(string \<Rightarrow> string) \<Rightarrow> string step_fn" where
  "step1_process_input str_upper state =
     (case state ''input'' of
        None \<Rightarrow> Inl (KeyError ''input'')
      | Some input_text \<Rightarrow> Inr [(''processed'', ''Processed: '' @ str_upper input_text)])"

definition step2_generate_output :: "string step_fn" where
  "step2_generate_output state =
     (case state ''processed'' of
        None \<Rightarrow> Inl (KeyError ''processed'')
      | Some processed \<Rightarrow> Inr [(''output'', ''Final: '' @ processed @ '' + extra transformation'')])"

definition build_graph_01 :: "(string \<Rightarrow> string) \<Rightarrow> error + string compiled_graph" where
  "build_graph_01 str_upper =
     (let graph0 = StateGraph State_01;
          graph1 = add_node ''process'' (step1_process_input str_upper) graph0;
          graph2 = add_node ''generate'' step2_generate_output graph1;
          graph3 = add_edge START (Name ''process'') graph2;
          graph4 = add_edge (Name ''process'') (Name ''generate'') graph3
      in case global_END module_names_01 of
           Inl e \<Rightarrow> Inl e
         | Inr end_node \<Rightarrow> compile (add_edge (Name ''generate'') end_node graph4) False [])"

section \<open>Messages of the agent scripts\<close>

text \<open>
  The \<open>messages\<close> field holds what the scripts put there: the \<open>("user", text)\<close> tuples
  of \<open>main\<close>, the responses of the language model (which carry a list of tool calls) and
  the results of the tool node. Only a model response has the attribute \<open>tool_calls\<close>.
\<close>

record tool_call =
  call_name :: string
  call_args :: string
  call_id :: string

datatype message =
    Tuple string string
  | AIMessage string "tool_call list"
  | ToolMessage string string

text \<open>\<open>hasattr(last_message, "tool_calls") and last_message.tool_calls\<close>, as a truth value.\<close>

fun has_tool_calls :: "message \<Rightarrow> bool" where
  "has_tool_calls (AIMessage content calls) = (calls \<noteq> [])"
| "has_tool_calls (Tuple role content) = False"
| "has_tool_calls (ToolMessage content cid) = False"

text \<open>
  The language model is outside the repository: \<open>model\<close> maps the messages it is invoked
  with to its response or to the error it raises.
\<close>

type_synonym chat_model = "message list \<Rightarrow> error + message"

definition State_messages :: "message list state_schema" where
  "State_messages = [(''messages'', operator_add)]"

section \<open>02_react_agent.py\<close>

text \<open>\<open>from langgraph.graph import START, StateGraph\<close>: the module does not bind \<open>END\<close>.\<close>

definition module_names_02 :: "string list" where
  "module_names_02 =
     [''START'', ''StateGraph'', ''ToolNode'', ''ChatAnthropic'', ''tool'', ''TypedDict'',
      ''Annotated'', ''List'', ''add'', ''search_engine'', ''calculator'', ''State'',
      ''build_graph'', ''main'']"

definition agent_02 :: "chat_model \<Rightarrow> message list step_fn" where
  "agent_02 model state =
     (case state ''messages'' of
        None \<Rightarrow> Inl (KeyError ''messages'')
      | Some messages \<Rightarrow>
          (case model messages of
             Inl e \<Rightarrow> Inl e
           | Inr response \<Rightarrow> Inr [(''messages'', [response])]))"

text \<open>
  \<open>should_continue\<close>: \<open>messages[-1]\<close> raises \<open>IndexError\<close> on an empty list; the branch
  \<open>return END\<close> evaluates the global name \<open>END\<close>.
\<close>

definition should_continue_02 :: "message list branch_fn" where
  "should_continue_02 state =
     (case state ''messages'' of
        None \<Rightarrow> Inl (KeyError ''messages'')
      | Some messages \<Rightarrow>
          if messages = [] then Inl IndexError
          else if has_tool_calls (last messages) then Inr (Name ''tools'')
          else global_END module_names_02)"

text \<open>
  \<open>build_graph\<close>: the mapping literal \<open>{"tools": "tools", END: END}\<close> is evaluated before
  \<open>add_conditional_edges\<close> is called. The prebuilt \<open>ToolNode\<close> is a parameter.
\<close>

definition build_graph_02 ::
    "chat_model \<Rightarrow> message list step_fn \<Rightarrow> error + message list compiled_graph" where
  "build_graph_02 model tool_node =
     (let graph0 = StateGraph State_messages;
          graph1 = add_node ''agent'' (agent_02 model) graph0;
          graph2 = add_node ''tools'' tool_node graph1;
          graph3 = add_edge START (Name ''agent'') graph2
      in case global_END module_names_02 of
           Inl e \<Rightarrow> Inl e
         | Inr end_node \<Rightarrow>
             compile
               (add_edge (Name ''tools'') (Name ''agent'')
                 (add_conditional_edges (Name ''agent'') should_continue_02
                    [(Name ''tools'', Name ''tools''), (end_node, end_node)] graph3))
               False [])"

section \<open>03_memory_persistence.py\<close>

definition chatbot_node :: "chat_model \<Rightarrow> message list step_fn" where
  "chatbot_node model state =
     (case state ''messages'' of
        None \<Rightarrow> Inl (KeyError ''messages'')
      | Some messages \<Rightarrow>
          (case model messages of
             Inl e \<Rightarrow> Inl e
           | Inr response \<Rightarrow> Inr [(''messages'', [response])]))"

text \<open>
  \<open>build_graph\<close> adds the edges \<open>START \<rightarrow> chatbot\<close> and \<open>chatbot \<rightarrow> START\<close> and compiles with a
  \<open>MemorySaver\<close>.
\<close>

definition build_graph_03 :: "chat_model \<Rightarrow> error + message list compiled_graph" where
  "build_graph_03 model =
     (let graph0 = StateGraph State_messages;
          graph1 = add_node ''chatbot'' (chatbot_node model) graph0;
          graph2 = add_edge START (Name ''chatbot'') graph1;
          graph3 = add_edge (Name ''chatbot'') START graph2
      in compile graph3 True [])"

definition conversations :: "string list" where
  "conversations =
     [''Hi, my name is Alice!'', ''What's my name?'', ''I'm learning about LangGraph.'',
      ''What did I say I'm learning?'']"

text \<open>
  The loop of \<open>main\<close>: one \<open>invoke\<close> per user message on the thread \<open>conversation-1\<close>,
  each on the store the previous one left. A run that does not complete ends the loop, as
  the exception (or the run that never returns) would.
\<close>

fun converse ::
    "nat \<Rightarrow> message list compiled_graph \<Rightarrow> string list \<Rightarrow> message list store
       \<Rightarrow> message list store option" where
  "converse fuel app [] store = Some store"
| "converse fuel app (user_message # rest) store =
     (case invoke fuel app (Some [(''messages'', [Tuple ''user'' user_message])])
             (Some ''conversation-1'') store of
        None \<Rightarrow> None
      | Some r \<Rightarrow>
          (case outcome r of
             Completed st \<Rightarrow> converse fuel app rest (store_after r)
           | Paused st \<Rightarrow> converse fuel app rest (store_after r)
           | Failed e st \<Rightarrow> None))"

text \<open>\<open>main\<close> up to the history it prints: the stored \<open>messages\<close> of the thread.\<close>

definition main_03 :: "nat \<Rightarrow> chat_model \<Rightarrow> error + message list option" where
  "main_03 fuel model =
     (case build_graph_03 model of
        Inl e \<Rightarrow> Inl e
      | Inr app \<Rightarrow>
          (case converse fuel app conversations Map.empty of
             None \<Rightarrow> Inr None
           | Some store \<Rightarrow>
               Inr (snapshot_values (fst (get_state app (Some ''conversation-1'') store))
                      ''messages'')))"

section \<open>04_human_in_the_loop.py\<close>

text \<open>\<open>from langgraph.graph import START, StateGraph\<close>: the module does not bind \<open>END\<close>.\<close>

definition module_names_04 :: "string list" where
  "module_names_04 =
     [''START'', ''StateGraph'', ''MemorySaver'', ''ChatAnthropic'', ''tool'', ''ToolNode'',
      ''TypedDict'', ''Annotated'', ''List'', ''add'', ''send_email'', ''execute_command'',
      ''State'', ''build_graph'', ''main'']"

definition agent_04 :: "chat_model \<Rightarrow> message list step_fn" where
  "agent_04 model state =
     (case state ''messages'' of
        None \<Rightarrow> Inl (KeyError ''messages'')
      | Some messages \<Rightarrow>
          (case model messages of
             Inl e \<Rightarrow> Inl e
           | Inr response \<Rightarrow> Inr [(''messages'', [response])]))"

definition should_continue_04 :: "message list branch_fn" where
  "should_continue_04 state =
     (case state ''messages'' of
        None \<Rightarrow> Inl (KeyError ''messages'')
      | Some messages \<Rightarrow>
          if messages = [] then Inl IndexError
          else if has_tool_calls (last messages) then Inr (Name ''tools'')
          else global_END module_names_04)"

text \<open>
  \<open>build_graph\<close> compiles with a \<open>MemorySaver\<close> and \<open>interrupt_before=["tools"]\<close>; the mapping
  literal with \<open>END\<close> is evaluated before that.
\<close>

definition build_graph_04 ::
    "chat_model \<Rightarrow> message list step_fn \<Rightarrow> error + message list compiled_graph" where
  "build_graph_04 model tool_node =
     (let graph0 = StateGraph State_messages;
          graph1 = add_node ''agent'' (agent_04 model) graph0;
          graph2 = add_node ''tools'' tool_node graph1;
          graph3 = add_edge START (Name ''agent'') graph2
      in case global_END module_names_04 of
           Inl e \<Rightarrow> Inl e
         | Inr end_node \<Rightarrow>
             compile
               (add_edge (Name ''tools'') (Name ''agent'')
                 (add_conditional_edges (Name ''agent'') should_continue_04
                    [(Name ''tools'', Name ''tools''), (end_node, end_node)] graph3))
               True [Name ''tools''])"

text \<open>
  \<open>main\<close> up to the first \<open>print\<close> of \<open>state.next\<close>: build the graph, invoke it once on the
  thread \<open>approval-thread\<close>, read the state back.
\<close>

definition main_04 ::
    "nat \<Rightarrow> chat_model \<Rightarrow> message list step_fn \<Rightarrow> error + node_name list option" where
  "main_04 fuel model tool_node =
     (case build_graph_04 model tool_node of
        Inl e \<Rightarrow> Inl e
      | Inr app \<Rightarrow>
          (case invoke fuel app
                  (Some [(''messages'',
                          [Tuple ''user'' ''Send an email to alice@example.com about meeting''])])
                  (Some ''approval-thread'') Map.empty of
             None \<Rightarrow> Inr None
           | Some r \<Rightarrow>
               Inr (Some (snapshot_next
                      (fst (get_state app (Some ''approval-thread'') (store_after r)))))))"

section \<open>Stand-ins for concrete runs\<close>

text \<open>
  A language model that always answers without a tool call, and the graph that
  \<open>build_graph\<close> of 03_memory_persistence.py hands to \<open>compile\<close> with this model.
\<close>

definition plain_model :: chat_model where
  "plain_model messages = Inr (AIMessage ''ok'' [])"

definition graph_03_plain :: "message list state_graph" where
  "graph_03_plain =
     add_edge (Name ''chatbot'') START
       (add_edge START (Name ''chatbot'')
         (add_node ''chatbot'' (chatbot_node plain_model) (StateGraph State_messages)))"


section \<open>Verification\<close>

subsection \<open>Strings\<close>

lemmas case_defs = lower_char_def upper_char_def is_upper_def is_lower_def
  ascii_uppercase_def ascii_lowercase_def

lemma startswith_prefix: "startswith s w = prefix w s"
  by (induction s w rule: startswith.induct) auto

lemma contains_sublist: "contains w s = sublist w s"
  by (induction s) (auto simp: startswith_prefix sublist_Cons_right)

lemma lower_swapcase: "lower_char (swapcase_char c) = lower_char c"
  by (simp add: swapcase_char_def case_defs)

lemma same_letter_lower: "same_letter a b \<Longrightarrow> lower_char b = lower_char a"
  by (auto simp: same_letter_def lower_swapcase)

lemma case_variant_ascii_lower: "case_variant q q' \<Longrightarrow> ascii_lower q' = ascii_lower q"
  unfolding case_variant_def ascii_lower_def
  by (induction q q' rule: list_all2_induct) (simp_all add: same_letter_lower)

lemma swapcase_keeps_ascii: "\<not> digit7 c \<Longrightarrow> \<not> digit7 (swapcase_char c)"
  by (auto simp: swapcase_char_def case_defs)

lemma case_variant_isascii: "case_variant q q' \<Longrightarrow> isascii q \<Longrightarrow> isascii q'"
  unfolding case_variant_def isascii_def
  by (induction q q' rule: list_all2_induct)
     (auto simp: same_letter_def swapcase_keeps_ascii)

lemma same_letter_upper_char: "same_letter c (upper_char c)"
  by (simp add: same_letter_def swapcase_char_def case_defs)

lemma same_letter_lower_char: "same_letter c (lower_char c)"
  by (simp add: same_letter_def swapcase_char_def case_defs)

lemma case_variant_ascii_upper: "case_variant q (ascii_upper q)"
  unfolding case_variant_def ascii_upper_def
  by (induction q) (simp_all add: same_letter_upper_char)

text \<open>
  The sample builtins: \<open>py_lower\<close> is the ASCII mapping on ASCII strings, and the values
  at the long s.
\<close>

lemma lowers_ascii_py_lower: "lowers_ascii py_lower"
  by (simp add: lowers_ascii_def py_lower_def)

lemma long_s_not_ascii: "\<not> isascii long_s_tory"
  by (simp add: isascii_def long_s_tory_def)

lemma py_upper_long_s: "py_upper long_s_tory = ''STORY''"
  by (simp add: py_upper_def long_s_not_ascii)

lemma py_lower_long_s: "py_lower long_s_tory = long_s_tory"
  by (simp add: py_lower_def long_s_not_ascii)

lemma py_lower_STORY: "py_lower ''STORY'' = ''story''"
  by (simp add: py_lower_def isascii_def ascii_lower_def case_defs)

subsection \<open>The router of 05_multi_agent.py\<close>

lemma route_to_agent_lower:
  "str_lower q' = str_lower q \<Longrightarrow>
   route_to_agent str_lower (st(''query'' \<mapsto> q'))
     = route_to_agent str_lower (st(''query'' \<mapsto> q))"
  by (simp add: route_to_agent_def)

text \<open>
  Claim C10, as amended. \<open>route_to_agent\<close> depends on the query only through
  \<open>query.lower()\<close>: two queries with the same lower-cased form route alike. So for a query
  of ASCII characters, on which \<open>str.lower\<close> is the ASCII mapping, the result is unchanged
  by changing the case of its letters. A query whose lower-cased form contains a coder
  keyword routes to \<open>coder\<close>, whatever writer keywords it also contains.
\<close>

theorem route_to_agent_lower_form_coder_first:
  "(str_lower q' = str_lower q \<longrightarrow>
      route_to_agent str_lower (st(''query'' \<mapsto> q'))
        = route_to_agent str_lower (st(''query'' \<mapsto> q)))
   \<and> (lowers_ascii str_lower \<and> isascii q \<and> case_variant q q' \<longrightarrow>
      route_to_agent str_lower (st(''query'' \<mapsto> q'))
        = route_to_agent str_lower (st(''query'' \<mapsto> q)))
   \<and> (any_word_in coder_words (str_lower q) \<longrightarrow>
      route_to_agent str_lower (st(''query'' \<mapsto> q)) = Inr ''coder'')"
proof (intro conjI impI)
  assume "str_lower q' = str_lower q"
  then show "route_to_agent str_lower (st(''query'' \<mapsto> q'))
        = route_to_agent str_lower (st(''query'' \<mapsto> q))"
    by (rule route_to_agent_lower)
next
  assume a: "lowers_ascii str_lower \<and> isascii q \<and> case_variant q q'"
  then have "isascii q'"
    using case_variant_isascii by blast
  with a have "str_lower q' = ascii_lower q'" and "str_lower q = ascii_lower q"
    by (simp_all add: lowers_ascii_def)
  with a have "str_lower q' = str_lower q"
    by (simp add: case_variant_ascii_lower)
  then show "route_to_agent str_lower (st(''query'' \<mapsto> q'))
        = route_to_agent str_lower (st(''query'' \<mapsto> q))"
    by (rule route_to_agent_lower)
next
  assume "any_word_in coder_words (str_lower q)"
  then show "route_to_agent str_lower (st(''query'' \<mapsto> q)) = Inr ''coder''"
    by (simp add: route_to_agent_def)
qed

text \<open>
  A concrete run: the query holds the coder keyword \<open>code\<close> and the writer keywords
  \<open>write\<close> and \<open>blog\<close>; it and a case variant of it both route to \<open>coder\<close>.
\<close>

lemma sample_variant: "case_variant ''Write CODE for my blog'' ''wRITE code FOR MY BLOG''"
  by (simp add: case_variant_def same_letter_def swapcase_char_def case_defs)

lemma sample_isascii: "isascii ''Write CODE for my blog''"
  by (simp add: isascii_def)

lemma sample_lower: "py_lower ''Write CODE for my blog'' = ''write code for my blog''"
  by (simp add: py_lower_def isascii_def ascii_lower_def case_defs)

lemma sample_coder_word: "any_word_in coder_words (py_lower ''Write CODE for my blog'')"
  by (simp add: sample_lower any_word_in_def coder_words_def)

theorem route_to_agent_lower_form_coder_first_witness:
  "lowers_ascii py_lower
   \<and> isascii ''Write CODE for my blog''
   \<and> case_variant ''Write CODE for my blog'' ''wRITE code FOR MY BLOG''
   \<and> py_lower ''wRITE code FOR MY BLOG'' = py_lower ''Write CODE for my blog''
   \<and> any_word_in coder_words (py_lower ''Write CODE for my blog'')
   \<and> any_word_in writer_words (py_lower ''Write CODE for my blog'')
   \<and> route_to_agent py_lower [''query'' \<mapsto> ''wRITE code FOR MY BLOG''] = Inr ''coder''
   \<and> route_to_agent py_lower [''query'' \<mapsto> ''Write CODE for my blog''] = Inr ''coder''"
proof -
  have w: "any_word_in writer_words (py_lower ''Write CODE for my blog'')"
    by (simp add: sample_lower any_word_in_def writer_words_def)
  have l: "py_lower ''wRITE code FOR MY BLOG'' = py_lower ''Write CODE for my blog''"
    by (simp add: py_lower_def isascii_def ascii_lower_def case_defs)
  from route_to_agent_lower_form_coder_first
         [of py_lower "''wRITE code FOR MY BLOG''" "''Write CODE for my blog''" Map.empty]
  show ?thesis
    using lowers_ascii_py_lower sample_isascii sample_variant sample_coder_word w l by simp
qed

text \<open>
  The claim as first stated (for every query, a change of letter case leaves the result
  unchanged) fails beyond ASCII: the query made of the long s (U+017F) and \<open>tory\<close> routes
  to \<open>researcher\<close>, and its upper-cased form \<open>STORY\<close> routes to \<open>writer\<close>.
\<close>

theorem route_to_agent_long_s_counterexample:
  "py_upper long_s_tory = ''STORY''
   \<and> route_to_agent py_lower [''query'' \<mapsto> long_s_tory] = Inr ''researcher''
   \<and> route_to_agent py_lower [''query'' \<mapsto> py_upper long_s_tory] = Inr ''writer''"
proof -
  have "any_word_in coder_words long_s_tory = False"
    and "any_word_in writer_words long_s_tory = False"
    by (simp_all add: any_word_in_def coder_words_def writer_words_def long_s_tory_def)
  then have r1: "route_to_agent py_lower [''query'' \<mapsto> long_s_tory] = Inr ''researcher''"
    by (simp add: route_to_agent_def py_lower_long_s)
  have r2: "route_to_agent py_lower [''query'' \<mapsto> ''STORY''] = Inr ''writer''"
    by (simp add: route_to_agent_def py_lower_STORY any_word_in_def coder_words_def
        writer_words_def)
  from r1 r2 show ?thesis
    by (simp add: py_upper_long_s)
qed

text \<open>
  Claim C7. For every state that holds a query, \<open>route_to_agent\<close> returns one of
  \<open>researcher\<close>, \<open>coder\<close>, \<open>writer\<close>, and the value returned is a key of the mapping
  given to \<open>add_conditional_edges\<close>: the lookup of the branch key never misses. This holds
  whatever \<open>str.lower\<close> returns.
\<close>

theorem route_to_agent_total:
  "state ''query'' = Some q \<Longrightarrow>
   \<exists>k. route_to_agent str_lower state = Inr k
     \<and> k \<in> {''researcher'', ''coder'', ''writer''}
     \<and> map_of routing_mapping k = Some k"
  by (simp add: route_to_agent_def routing_mapping_def Let_def)

theorem route_to_agent_total_witness:
  "[''query'' \<mapsto> ''Research the latest developments in quantum computing''] ''query''
     = Some ''Research the latest developments in quantum computing''
   \<and> (\<exists>k. route_to_agent py_lower
            [''query'' \<mapsto> ''Research the latest developments in quantum computing''] = Inr k
     \<and> k \<in> {''researcher'', ''coder'', ''writer''}
     \<and> map_of routing_mapping k = Some k)"
  using route_to_agent_total
    [of "[''query'' \<mapsto> ''Research the latest developments in quantum computing'']"
        "''Research the latest developments in quantum computing''" py_lower]
  by simp

subsection \<open>The calculator tool of 02_react_agent.py\<close>




subsection \<open>The engine: merge, routing, pausing\<close>

lemma merge_key_frame: "merge_key sch st kv = Inr st' \<Longrightarrow> k \<noteq> fst kv \<Longrightarrow> st' k = st k"
  by (auto simp: merge_key_def split: option.splits sum.splits)

lemma merge_frame: "merge sch st u = Inr st' \<Longrightarrow> k \<notin> fst ` set u \<Longrightarrow> st' k = st k"
proof (induction u arbitrary: st)
  case Nil
  then show ?case by simp
next
  case (Cons kv rest)
  from Cons.prems(1) obtain st1
    where st1: "merge_key sch st kv = Inr st1" "merge sch st1 rest = Inr st'"
    by (auto split: sum.splits)
  from Cons.prems(2) have "k \<noteq> fst kv" "k \<notin> fst ` set rest" by auto
  with st1 Cons.IH[of st1] merge_key_frame[of sch st kv st1 k] show ?case by simp
qed

text \<open>The append reducer keeps the order: \<open>["a"]\<close> then \<open>["b"]\<close> onto an empty history.\<close>

lemma append_reducer_in_order:
  "merge_all [(''messages'', operator_add)] [''messages'' \<mapsto> []]
     [[(''messages'', [a])], [(''messages'', [b])]]
   = Inr [''messages'' \<mapsto> [a, b]]"
  by (simp add: merge_key_def operator_add_def)

lemma append_reducer_concat:
  "merge [(''messages'', operator_add)] (st(''messages'' \<mapsto> old)) [(''messages'', new)]
   = Inr (st(''messages'' \<mapsto> old @ new))"
  by (simp add: merge_key_def operator_add_def)

text \<open>
  A branch function that returns \<open>END\<close>, with \<open>END\<close> mapped to \<open>END\<close>, resolves to the
  virtual terminal, and a run whose resolved node set is \<open>END\<close> is completed with the state
  as it is.
\<close>

lemma conditional_END_resolves_to_END:
  "f st = Inr END \<Longrightarrow> map_of m END = Some END
   \<Longrightarrow> resolve_edge st (ConditionalEdges a f m) = Inr [END]"
  by simp

lemma run_completes_at_END:
  "run (Suc fuel) app config resuming [END] st trace store
   = Some \<lparr>outcome = Completed st, executed = trace, store_after = store\<rparr>"
  by simp

text \<open>
  A key of the router is never missing from its mapping, so resolving the conditional
  edge of 05_multi_agent.py does not fail with \<open>RoutingError\<close>.
\<close>

lemma routing_never_misses:
  "st ''query'' = Some q \<Longrightarrow>
   \<exists>k. resolve_edge st
          (ConditionalEdges START
             (\<lambda>s. case route_to_agent str_lower s of Inl e \<Rightarrow> Inl e | Inr k \<Rightarrow> Inr (Name k))
             (map (\<lambda>kt. (Name (fst kt), Name (snd kt))) routing_mapping))
        = Inr [Name k]"
  by (simp add: route_to_agent_def routing_mapping_def Let_def)

text \<open>
  A scheduled node of the interrupt set pauses the run before anything is executed: the
  state and the trace are as they were, and the checkpoint names the node as pending.
  \<open>get_state\<close> then reports that node as next; a later \<open>invoke\<close> with no input resumes past
  the boundary.
\<close>

lemma run_pauses_before_interrupt:
  "n \<in> set (interrupt_before app) \<Longrightarrow> n \<noteq> END \<Longrightarrow>
   run (Suc fuel) app config False [n] st trace store
   = Some \<lparr>outcome = Paused st, executed = trace,
           store_after = save_checkpoint app config
             \<lparr>cp_state = st, pending_node = Some n, interrupted = True\<rparr> store\<rparr>"
  by simp

lemma get_state_after_pause:
  "checkpointer app \<Longrightarrow>
   fst (get_state app (Some thread_id)
          (save_checkpoint app (Some thread_id)
             \<lparr>cp_state = st, pending_node = Some n, interrupted = True\<rparr> store))
   = \<lparr>snapshot_values = st, snapshot_next = [n]\<rparr>"
  by (simp add: get_state_def load_checkpoint_def save_checkpoint_def load_def save_def)

lemma invoke_resumes_at_pending:
  "checkpointer app \<Longrightarrow>
   store thread_id = Some \<lparr>cp_state = st, pending_node = Some n, interrupted = True\<rparr> \<Longrightarrow>
   invoke fuel app None (Some thread_id) store = run fuel app (Some thread_id) True [n] st [] store"
  by (simp add: invoke_def load_checkpoint_def load_def)

subsection \<open>The reachability analysis\<close>

text \<open>
  \<open>reach es [a]\<close> lists exactly the nodes that a path of static edges reaches from \<open>a\<close>:
  it keeps what it has seen, it is closed under the edges, and it adds nothing else.
\<close>

lemma reach_superset: "set seen \<subseteq> set (reach es seen)"
proof (induction es seen rule: reach.induct)
  case (1 es seen)
  define new
    where "new = filter (\<lambda>m. m \<notin> set seen) (remdups (concat (map (successors es) seen)))"
  show ?case
  proof (cases "new = []")
    case True
    then show ?thesis by (subst reach.simps) (simp add: new_def Let_def)
  next
    case False
    then have "reach es seen = reach es (seen @ new)"
      by (subst reach.simps) (simp add: new_def Let_def)
    moreover have "set (seen @ new) \<subseteq> set (reach es (seen @ new))"
      using "1.IH"[OF new_def False] .
    ultimately show ?thesis by auto
  qed
qed

lemma reach_closed:
  "n \<in> set (reach es seen) \<Longrightarrow> (n, m) \<in> set es \<Longrightarrow> m \<in> set (reach es seen)"
proof (induction es seen rule: reach.induct)
  case (1 es seen)
  define new
    where "new = filter (\<lambda>m. m \<notin> set seen) (remdups (concat (map (successors es) seen)))"
  show ?case
  proof (cases "new = []")
    case True
    then have eq: "reach es seen = seen"
      by (subst reach.simps) (simp add: new_def Let_def)
    with "1.prems" have "n \<in> set seen" by simp
    with "1.prems"(2) have "m \<in> set (concat (map (successors es) seen))"
      by (force simp: successors_def)
    with True have "m \<in> set seen"
      by (auto simp: new_def filter_empty_conv)
    with eq show ?thesis by simp
  next
    case False
    then have eq: "reach es seen = reach es (seen @ new)"
      by (subst reach.simps) (simp add: new_def Let_def)
    show ?thesis
      using "1.IH"[OF new_def False] "1.prems" unfolding eq by simp
  qed
qed

lemma reach_sound:
  "n \<in> set (reach es seen) \<Longrightarrow> \<exists>s\<in>set seen. (s, n) \<in> (set es)\<^sup>*"
proof (induction es seen rule: reach.induct)
  case (1 es seen)
  define new
    where "new = filter (\<lambda>m. m \<notin> set seen) (remdups (concat (map (successors es) seen)))"
  show ?case
  proof (cases "new = []")
    case True
    then have "reach es seen = seen"
      by (subst reach.simps) (simp add: new_def Let_def)
    with "1.prems" show ?thesis by auto
  next
    case False
    then have eq: "reach es seen = reach es (seen @ new)"
      by (subst reach.simps) (simp add: new_def Let_def)
    from "1.IH"[OF new_def False] "1.prems" eq
    obtain s where s: "s \<in> set (seen @ new)" "(s, n) \<in> (set es)\<^sup>*" by auto
    show ?thesis
    proof (cases "s \<in> set seen")
      case True
      with s show ?thesis by auto
    next
      case False
      with s have "s \<in> set new" by simp
      then obtain t where "t \<in> set seen" "(t, s) \<in> set es"
        by (auto simp: new_def successors_def)
      with s have "t \<in> set seen" "(t, n) \<in> (set es)\<^sup>*"
        by (auto intro: converse_rtrancl_into_rtrancl)
      then show ?thesis by auto
    qed
  qed
qed

lemma reach_iff: "n \<in> set (reach es [a]) \<longleftrightarrow> (a, n) \<in> (set es)\<^sup>*"
proof
  assume "n \<in> set (reach es [a])"
  from reach_sound[OF this] show "(a, n) \<in> (set es)\<^sup>*" by simp
next
  assume "(a, n) \<in> (set es)\<^sup>*"
  then show "n \<in> set (reach es [a])"
  proof (induction rule: rtrancl_induct)
    case base
    show ?case using reach_superset[of "[a]" es] by simp
  next
    case (step y z)
    then show ?case by (blast intro: reach_closed)
  qed
qed

lemmas builder_defs = StateGraph_def add_node_def add_edge_def add_conditional_edges_def

lemmas integrity_defs = integrity_ok_def static_edges_def successors_def reach.simps Let_def

lemma integrity_needs_path:
  assumes "(START, n) \<in> (set (static_edges g))\<^sup>*"
    and "(n, END) \<notin> (set (static_edges g))\<^sup>*"
  shows "\<not> integrity_ok g"
proof
  assume "integrity_ok g"
  then have "list_all (\<lambda>n. END \<in> set (reach (static_edges g) [n]))
               (reach (static_edges g) [START])"
    by (simp add: integrity_ok_def Let_def)
  moreover from assms(1) have "n \<in> set (reach (static_edges g) [START])"
    by (simp add: reach_iff)
  ultimately have "END \<in> set (reach (static_edges g) [n])"
    by (simp add: list_all_iff)
  with assms(2) show False
    by (simp add: reach_iff)
qed

subsection \<open>03_memory_persistence.py never compiles\<close>

lemma build_graph_03_fails: "build_graph_03 model = Inl GraphIntegrityError"
  by (simp add: build_graph_03_def compile_def builder_defs integrity_defs)

text \<open>
  Claim C2. A graph in which a node reachable from \<open>START\<close> (along the static edges) has
  no path to \<open>END\<close> is refused by \<open>compile\<close> with \<open>GraphIntegrityError\<close>: no runnable
  graph exists to invoke. In particular \<open>build_graph\<close> of 03_memory_persistence.py, whose
  edges are \<open>START \<rightarrow> chatbot\<close> and \<open>chatbot \<rightarrow> START\<close>, fails in \<open>compile\<close>, whatever the
  language model is.
\<close>

theorem compile_rejects_node_without_path_to_END:
  "((START, n) \<in> (set (static_edges g))\<^sup>* \<and> (n, END) \<notin> (set (static_edges g))\<^sup>*
      \<longrightarrow> compile g cp ib = Inl GraphIntegrityError)
   \<and> build_graph_03 model = Inl GraphIntegrityError"
  using integrity_needs_path[of n g] build_graph_03_fails
  by (auto simp: compile_def)

lemma static_edges_03:
  "static_edges graph_03_plain = [(START, Name ''chatbot''), (Name ''chatbot'', START)]"
  by (simp add: graph_03_plain_def builder_defs static_edges_def)

lemma reach_03_START:
  "reach [(START, Name ''chatbot''), (Name ''chatbot'', START)] [START]
   = [START, Name ''chatbot'']"
  by (simp add: reach.simps successors_def)

lemma reach_03_chatbot:
  "reach [(START, Name ''chatbot''), (Name ''chatbot'', START)] [Name ''chatbot'']
   = [Name ''chatbot'', START]"
  by (simp add: reach.simps successors_def)

text \<open>
  In the graph of 03_memory_persistence.py the node \<open>chatbot\<close> is reachable from \<open>START\<close>
  and reaches only \<open>START\<close> and itself.
\<close>

theorem compile_rejects_node_without_path_to_END_witness:
  "(START, Name ''chatbot'') \<in> (set (static_edges graph_03_plain))\<^sup>*
   \<and> (Name ''chatbot'', END) \<notin> (set (static_edges graph_03_plain))\<^sup>*
   \<and> compile graph_03_plain True [] = Inl GraphIntegrityError
   \<and> build_graph_03 plain_model = Inl GraphIntegrityError"
proof -
  have a: "(START, Name ''chatbot'') \<in> (set (static_edges graph_03_plain))\<^sup>*"
    unfolding reach_iff[symmetric] by (simp add: static_edges_03 reach_03_START)
  have b: "(Name ''chatbot'', END) \<notin> (set (static_edges graph_03_plain))\<^sup>*"
    unfolding reach_iff[symmetric] by (simp add: static_edges_03 reach_03_chatbot)
  from compile_rejects_node_without_path_to_END
         [of "Name ''chatbot''" graph_03_plain True "[]" plain_model] a b
  show ?thesis by simp
qed

text \<open>
  Claim C5. The claim's second half does not hold of the script: \<open>main\<close> of
  03_memory_persistence.py stops in \<open>build_graph\<close> with \<open>GraphIntegrityError\<close>, for every
  language model and however long a run may take, so no \<open>invoke\<close> runs and no message
  is ever stored. (The first half, the order kept by the append reducer, is
  \<open>append_reducer_in_order\<close> above.)
\<close>

theorem main_03_never_invokes: "main_03 fuel model = Inl GraphIntegrityError"
  by (simp add: main_03_def build_graph_03_fails)

subsection \<open>01_sequential_chain.py\<close>

lemma global_END_01: "global_END module_names_01 = Inr END"
  by (simp add: global_END_def module_names_01_def)

lemma build_graph_01_eq:
  "build_graph_01 str_upper =
     Inr \<lparr>graph = \<lparr>schema = State_01,
              nodes = [(''process'', step1_process_input str_upper), (''generate'', step2_generate_output)],
              edges = [Edge START (Name ''process''), Edge (Name ''process'') (Name ''generate''),
                       Edge (Name ''generate'') END]\<rparr>,
          checkpointer = False, interrupt_before = []\<rparr>"
  by (simp add: build_graph_01_def global_END_01 builder_defs compile_def integrity_defs)

text \<open>
  The run of the compiled chain from any full initial state: three rounds of the loop
  (run \<open>process\<close>, run \<open>generate\<close>, see \<open>END\<close>), so any fuel of at least three is enough.
\<close>

lemma run_01:
  "invoke (Suc (Suc (Suc k)))
      \<lparr>graph = \<lparr>schema = State_01,
              nodes = [(''process'', step1_process_input str_upper), (''generate'', step2_generate_output)],
              edges = [Edge START (Name ''process''), Edge (Name ''process'') (Name ''generate''),
                       Edge (Name ''generate'') END]\<rparr>,
          checkpointer = False, interrupt_before = []\<rparr>
      (Some [(''input'', s), (''processed'', p), (''output'', out)]) config store
   = Some \<lparr>outcome = Completed
              [''input'' \<mapsto> s,
               ''processed'' \<mapsto> ''Processed: '' @ str_upper s,
               ''output'' \<mapsto> ''Final: Processed: '' @ str_upper s @ '' + extra transformation''],
            executed = [Name ''process'', Name ''generate''],
            store_after = store\<rparr>"
  by (simp add: invoke_def load_checkpoint_def save_checkpoint_def resolve_next_def dict_def
      State_01_def step1_process_input_def step2_generate_output_def merge_key_def replace_def
      split: option.splits)


lemma step1_keys: "step1_process_input str_upper st = Inr u \<Longrightarrow> map fst u = [''processed'']"
  by (auto simp: step1_process_input_def split: option.splits)

lemma step2_keys: "step2_generate_output st = Inr u \<Longrightarrow> map fst u = [''output'']"
  by (auto simp: step2_generate_output_def split: option.splits)

lemma after_step1:
  "step1_process_input str_upper (dict [(''input'', s), (''processed'', p), (''output'', out)])
     = Inr [(''processed'', ''Processed: '' @ str_upper s)]
   \<and> merge State_01 (dict [(''input'', s), (''processed'', p), (''output'', out)])
       [(''processed'', ''Processed: '' @ str_upper s)]
     = Inr [''input'' \<mapsto> s, ''processed'' \<mapsto> ''Processed: '' @ str_upper s, ''output'' \<mapsto> out]"
  by (auto simp add: step1_process_input_def dict_def State_01_def merge_key_def replace_def
      fun_eq_iff)

text \<open>
  Claim C6. A successful merge leaves every key that the partial update does not mention
  as it was. In 01_sequential_chain.py the update of \<open>step1_process_input\<close> mentions
  neither \<open>input\<close> nor \<open>output\<close> and that of \<open>step2_generate_output\<close> does not mention
  \<open>input\<close>; so a full \<open>invoke\<close> from any initial state returns a state whose \<open>input\<close> is the
  initial input, and the state merged after step 1 still has the initial \<open>output\<close>.
\<close>

theorem merge_leaves_absent_keys:
  "(merge sch st u = Inr st' \<and> key \<notin> fst ` set u \<longrightarrow> st' key = st key)
   \<and> (step1_process_input str_upper st1 = Inr u1 \<longrightarrow> ''input'' \<notin> fst ` set u1 \<and> ''output'' \<notin> fst ` set u1)
   \<and> (step2_generate_output st2 = Inr u2 \<longrightarrow> ''input'' \<notin> fst ` set u2)
   \<and> (\<exists>app final. build_graph_01 str_upper = Inr app
        \<and> invoke (Suc (Suc (Suc k))) app
            (Some [(''input'', s), (''processed'', p), (''output'', out)]) config store
          = Some \<lparr>outcome = Completed final, executed = [Name ''process'', Name ''generate''],
                  store_after = store\<rparr>
        \<and> final ''input'' = Some s)
   \<and> (\<exists>u after1.
         step1_process_input str_upper (dict [(''input'', s), (''processed'', p), (''output'', out)]) = Inr u
       \<and> merge State_01 (dict [(''input'', s), (''processed'', p), (''output'', out)]) u = Inr after1
       \<and> after1 ''output'' = Some out \<and> after1 ''input'' = Some s)"
proof (intro conjI impI)
  assume "merge sch st u = Inr st' \<and> key \<notin> fst ` set u"
  then show "st' key = st key" using merge_frame by blast
next
  assume "step1_process_input str_upper st1 = Inr u1"
  from step1_keys[OF this] have "fst ` set u1 = {''processed''}"
    by (metis list.set_map list.simps(15) empty_set)
  then show "''input'' \<notin> fst ` set u1" and "''output'' \<notin> fst ` set u1" by simp_all
next
  assume "step2_generate_output st2 = Inr u2"
  from step2_keys[OF this] have "fst ` set u2 = {''output''}"
    by (metis list.set_map list.simps(15) empty_set)
  then show "''input'' \<notin> fst ` set u2" by simp
next
  show "\<exists>app final. build_graph_01 str_upper = Inr app
        \<and> invoke (Suc (Suc (Suc k))) app
            (Some [(''input'', s), (''processed'', p), (''output'', out)]) config store
          = Some \<lparr>outcome = Completed final, executed = [Name ''process'', Name ''generate''],
                  store_after = store\<rparr>
        \<and> final ''input'' = Some s"
    unfolding build_graph_01_eq using run_01[of k str_upper s p out config store] by simp
next
  show "\<exists>u after1.
         step1_process_input str_upper (dict [(''input'', s), (''processed'', p), (''output'', out)]) = Inr u
       \<and> merge State_01 (dict [(''input'', s), (''processed'', p), (''output'', out)]) u = Inr after1
       \<and> after1 ''output'' = Some out \<and> after1 ''input'' = Some s"
    using after_step1[of str_upper s p out] by simp
qed

text \<open>
  A concrete run of the frame property: the input \<open>hi\<close>, the update of step 1 and the
  update of step 2.
\<close>

theorem merge_leaves_absent_keys_witness:
  "merge State_01 (dict [(''input'', ''hi''), (''processed'', ''''), (''output'', '''')])
       [(''processed'', ''Processed: HI'')]
     = Inr [''input'' \<mapsto> ''hi'', ''processed'' \<mapsto> ''Processed: HI'', ''output'' \<mapsto> '''']
   \<and> ''input'' \<notin> fst ` set [(''processed'', ''Processed: HI'')]
   \<and> [''input'' \<mapsto> ''hi'', ''processed'' \<mapsto> ''Processed: HI'', ''output'' \<mapsto> ''''] ''input''
     = dict [(''input'', ''hi''), (''processed'', ''''), (''output'', '''')] ''input''
   \<and> step1_process_input py_upper (dict [(''input'', ''hi''), (''processed'', ''''), (''output'', '''')])
     = Inr [(''processed'', ''Processed: HI'')]
   \<and> step2_generate_output
       [''input'' \<mapsto> ''hi'', ''processed'' \<mapsto> ''Processed: HI'', ''output'' \<mapsto> '''']
     = Inr [(''output'', ''Final: Processed: HI + extra transformation'')]
   \<and> ''input'' \<notin> fst ` set [(''output'', ''Final: Processed: HI + extra transformation'')]"
proof -
  have up: "py_upper ''hi'' = ''HI''"
    by (simp add: py_upper_def isascii_def ascii_upper_def case_defs)
  have m: "merge State_01 (dict [(''input'', ''hi''), (''processed'', ''''), (''output'', '''')])
       [(''processed'', ''Processed: HI'')]
     = Inr [''input'' \<mapsto> ''hi'', ''processed'' \<mapsto> ''Processed: HI'', ''output'' \<mapsto> '''']"
    using after_step1[of py_upper "''hi''" "''''" "''''"] by (simp add: up)
  have s1: "step1_process_input py_upper (dict [(''input'', ''hi''), (''processed'', ''''), (''output'', '''')])
     = Inr [(''processed'', ''Processed: HI'')]"
    using after_step1[of py_upper "''hi''" "''''" "''''"] by (simp add: up)
  have s2: "step2_generate_output
       [''input'' \<mapsto> ''hi'', ''processed'' \<mapsto> ''Processed: HI'', ''output'' \<mapsto> '''']
     = Inr [(''output'', ''Final: Processed: HI + extra transformation'')]"
    by (simp add: step2_generate_output_def)
  from merge_leaves_absent_keys
         [of State_01 "dict [(''input'', ''hi''), (''processed'', ''''), (''output'', '''')]"
             "[(''processed'', ''Processed: HI'')]"
             "[''input'' \<mapsto> ''hi'', ''processed'' \<mapsto> ''Processed: HI'', ''output'' \<mapsto> '''']"
             "''input''" py_upper
             "dict [(''input'', ''hi''), (''processed'', ''''), (''output'', '''')]"
             "[(''processed'', ''Processed: HI'')]"
             "[''input'' \<mapsto> ''hi'', ''processed'' \<mapsto> ''Processed: HI'', ''output'' \<mapsto> '''']"
             "[(''output'', ''Final: Processed: HI + extra transformation'')]"]
    m s1 s2
  show ?thesis by simp
qed

subsection \<open>Reading the state of a thread\<close>











subsection \<open>02_react_agent.py and 04_human_in_the_loop.py: the name END\<close>

lemma global_END_02: "global_END module_names_02 = Inl (NameError ''END'')"
  by (simp add: global_END_def module_names_02_def)

lemma global_END_04: "global_END module_names_04 = Inl (NameError ''END'')"
  by (simp add: global_END_def module_names_04_def)

text \<open>
  On every state whose last message has no tool calls, \<open>should_continue\<close> of either script
  raises \<open>NameError\<close>: the module never imports \<open>END\<close>.
\<close>

lemma should_continue_02_no_tool_calls:
  "state ''messages'' = Some messages \<Longrightarrow> messages \<noteq> [] \<Longrightarrow> \<not> has_tool_calls (last messages)
   \<Longrightarrow> should_continue_02 state = Inl (NameError ''END'')"
  by (simp add: should_continue_02_def global_END_02)

lemma should_continue_04_no_tool_calls:
  "state ''messages'' = Some messages \<Longrightarrow> messages \<noteq> [] \<Longrightarrow> \<not> has_tool_calls (last messages)
   \<Longrightarrow> should_continue_04 state = Inl (NameError ''END'')"
  by (simp add: should_continue_04_def global_END_04)

text \<open>
  Claim C1. The claim does not hold of the scripts: on the states that \<open>main\<close> starts
  from, whose last message is a \<open>("user", text)\<close> tuple with no tool calls,
  \<open>should_continue\<close> of 02_react_agent.py and of 04_human_in_the_loop.py raises
  \<open>NameError\<close> instead of returning \<open>END\<close>; and \<open>build_graph\<close> of 02_react_agent.py raises
  it before the graph is compiled, whatever the model and the tool node are.
\<close>

theorem should_continue_END_unbound:
  "should_continue_02 [''messages'' \<mapsto> [Tuple ''user'' ''What is the weather?'']]
     = Inl (NameError ''END'')
   \<and> should_continue_04
       [''messages'' \<mapsto> [Tuple ''user'' ''Send an email to alice@example.com about meeting'']]
     = Inl (NameError ''END'')
   \<and> build_graph_02 model tool_node = Inl (NameError ''END'')"
  by (simp add: should_continue_02_def should_continue_04_def build_graph_02_def
      global_END_02 global_END_04)

text \<open>
  Claim C3. The claim does not hold of the script: \<open>main\<close> of 04_human_in_the_loop.py
  stops in \<open>build_graph\<close> with \<open>NameError\<close>, for every model, every tool node and however
  long a run may take, so no graph is compiled, nothing is invoked and no state with
  \<open>tools\<close> as its next node is ever stored.
\<close>

theorem main_04_END_unbound: "main_04 fuel model tool_node = Inl (NameError ''END'')"
  by (simp add: main_04_def build_graph_04_def global_END_04)

end
